theory Spec2Isabelle
  imports Complex_Main
begin

section \<open>Data model\<close>

text \<open>
  The models of \<^verbatim>\<open>bars_core/models/bar.py\<close> and \<^verbatim>\<open>bars_core/models/account.py\<close>.
  Conventions of the embedding:
  \<^item> a \<^verbatim>\<open>date\<close> is its proleptic Gregorian ordinal (\<^verbatim>\<open>date.toordinal()\<close>), an \<open>int\<close>;
    \<^verbatim>\<open>date - date\<close> is a whole number of days;
  \<^item> a \<^verbatim>\<open>FloatField\<close> holds a Python \<^verbatim>\<open>float\<close>: a finite value, an infinity or
    NaN (type \<open>pyfloat\<close> below); \<open>Finite x\<close> is the float whose value is \<open>x\<close>, and
    arithmetic on finite floats is taken as exact (the rounding of a product to the
    nearest float and the sign of zero are not modelled);
  \<^item> a \<^verbatim>\<open>timedelta\<close> is its length in microseconds, an \<open>int\<close>; the constructor is
    modelled with its rounding to whole microseconds, its range and its exceptions;
  \<^item> a foreign key is the primary key of the row it points to;
  \<^item> a table is the list of its rows, so that duplicate rows can be expressed;
  \<^item> every reading of the clock is a parameter of the operation that makes it: the two
    calls of \<^verbatim>\<open>date.today()\<close> in \<^verbatim>\<open>apply_agios\<close> are \<open>today1\<close> and \<open>today2\<close>, the
    \<^verbatim>\<open>auto_now\<close> timestamp of a save is \<open>now\<close>;
  \<^item> an exception is a value \<open>Inl e\<close>; what the store holds when an exception leaves a
    call is not modelled.
\<close>

type_synonym date = int
type_synonym datetime = int

datatype error =
    DoesNotExist
  | MultipleObjectsReturned
  | IntegrityError
  | ValidationError
  | TypeError
  | ValueError
  | OverflowError

datatype pyfloat = Finite real | PosInf | NegInf | NaN

text \<open>\<^verbatim>\<open>x >= 0\<close> and \<^verbatim>\<open>x < 0\<close>: both are false of NaN.\<close>

fun float_nonneg :: "pyfloat \<Rightarrow> bool" where
  "float_nonneg (Finite x) = (x \<ge> 0)"
| "float_nonneg PosInf = True"
| "float_nonneg NegInf = False"
| "float_nonneg NaN = False"

fun float_neg :: "pyfloat \<Rightarrow> bool" where
  "float_neg (Finite x) = (x < 0)"
| "float_neg PosInf = False"
| "float_neg NegInf = True"
| "float_neg NaN = False"

text \<open>\<^verbatim>\<open>abs(x)\<close> and \<^verbatim>\<open>x * y\<close>.\<close>

fun float_abs :: "pyfloat \<Rightarrow> pyfloat" where
  "float_abs (Finite x) = Finite \<bar>x\<bar>"
| "float_abs PosInf = PosInf"
| "float_abs NegInf = PosInf"
| "float_abs NaN = NaN"

fun float_sgn :: "pyfloat \<Rightarrow> int" where
  "float_sgn (Finite x) = (if x < 0 then -1 else if x = 0 then 0 else 1)"
| "float_sgn PosInf = 1"
| "float_sgn NegInf = -1"
| "float_sgn NaN = 0"

fun float_mult :: "pyfloat \<Rightarrow> pyfloat \<Rightarrow> pyfloat" where
  "float_mult (Finite x) (Finite y) = Finite (x * y)"
| "float_mult NaN b = NaN"
| "float_mult a NaN = NaN"
| "float_mult a b =
     (if float_sgn a * float_sgn b = 0 then NaN
      else if float_sgn a * float_sgn b > 0 then PosInf else NegInf)"

text \<open>Rounding to the nearest integer, a tie going to the even one.\<close>

definition round_half_even :: "real \<Rightarrow> int" where
  "round_half_even x =
     (let f = \<lfloor>x\<rfloor>; r = x - of_int f in
      if r < 1 / 2 then f
      else if r > 1 / 2 then f + 1
      else if even f then f else f + 1)"

text \<open>
  \<^verbatim>\<open>timedelta(days)\<close> for a float number of days, in microseconds: NaN raises
  \<^verbatim>\<open>ValueError\<close>, an infinity raises \<^verbatim>\<open>OverflowError\<close>, a finite value is rounded to
  whole microseconds, and the result raises \<^verbatim>\<open>OverflowError\<close> when its number of whole
  days (rounded down) is beyond 999999999 in magnitude.
\<close>

definition timedelta :: "pyfloat \<Rightarrow> error + int" where
  "timedelta days =
     (case days of
        NaN \<Rightarrow> Inl ValueError
      | PosInf \<Rightarrow> Inl OverflowError
      | NegInf \<Rightarrow> Inl OverflowError
      | Finite x \<Rightarrow>
          (let us = round_half_even (x * 86400000000) in
           if \<bar>us div 86400000000\<bar> > 999999999 then Inl OverflowError else Inr us))"

record Bar =
  bar_id :: string
  bar_name :: string

record BarSettings =
  settings_bar :: string
  next_scheduled_appro :: "datetime option"
  money_warning_threshold :: pyfloat
  transaction_cancel_threshold :: pyfloat
  default_tax :: pyfloat
  agios_enabled :: bool
  agios_threshold :: pyfloat
  agios_factor :: pyfloat
  settings_last_modified :: datetime

record Account =
  pk :: "nat option"
  bar :: string
  owner :: nat
  money :: pyfloat
  overdrawn_since :: "date option"
  deleted :: bool
  last_modified :: datetime

text \<open>
  A row of \<^verbatim>\<open>Role\<close>, as \<^verbatim>\<open>Account.save\<close> creates it
  (\<^verbatim>\<open>name='customer', bar=self.bar, user=self.owner\<close>).
\<close>

record Role =
  role_name :: string
  role_bar :: string
  role_user :: nat

text \<open>
  The persisted store. The field \<open>rest\<close> stands for the tables whose models are not
  part of the sources read here (transactions, operations, users).
\<close>

record 'r db =
  bar_table :: "Bar list"
  barsettings_table :: "BarSettings list"
  account_table :: "Account list"
  role_table :: "Role list"
  rest :: 'r

section \<open>Saving rows\<close>

text \<open>\<^verbatim>\<open>Role.objects.get_or_create(name=..., bar=..., user=...)\<close>.\<close>

definition Role_get_or_create :: "string \<Rightarrow> string \<Rightarrow> nat \<Rightarrow> 'r db \<Rightarrow> error + 'r db" where
  "Role_get_or_create n b u d =
     (case filter (\<lambda>r. role_name r = n \<and> role_bar r = b \<and> role_user r = u) (role_table d) of
        [] \<Rightarrow> Inr (d\<lparr>role_table := role_table d @ [\<lparr>role_name = n, role_bar = b, role_user = u\<rparr>]\<rparr>)
      | [r] \<Rightarrow> Inr d
      | _ \<Rightarrow> Inl MultipleObjectsReturned)"

text \<open>The next value of the \<^verbatim>\<open>AutoField\<close> primary key of the account table.\<close>

definition next_pk :: "Account list \<Rightarrow> nat" where
  "next_pk rows = Suc (fold max (map (\<lambda>r. case pk r of None \<Rightarrow> 0 | Some k \<Rightarrow> k) rows) 0)"

text \<open>
  \<^verbatim>\<open>super(Account, self).save()\<close>: the \<^verbatim>\<open>auto_now\<close> field is set, the
  \<^verbatim>\<open>unique_together = ("bar", "owner")\<close> constraint is checked, and the row is updated
  when its key is in the table and inserted otherwise (with a new key when the object
  has none). The object, which Python mutates in place, is returned with the store.
\<close>

definition Model_save_account ::
  "datetime \<Rightarrow> Account \<Rightarrow> 'r db \<Rightarrow> error + (Account \<times> 'r db)" where
  "Model_save_account now self d =
     (let a = self\<lparr>last_modified := now\<rparr>; rows = account_table d in
      if list_ex (\<lambda>r. pk r \<noteq> pk a \<and> bar r = bar a \<and> owner r = owner a) rows
      then Inl IntegrityError
      else (case pk a of
              None \<Rightarrow>
                (let a' = a\<lparr>pk := Some (next_pk rows)\<rparr>
                 in Inr (a', d\<lparr>account_table := rows @ [a']\<rparr>))
            | Some k \<Rightarrow>
                if list_ex (\<lambda>r. pk r = Some k) rows
                then Inr (a, d\<lparr>account_table := map (\<lambda>r. if pk r = Some k then a else r) rows\<rparr>)
                else Inr (a, d\<lparr>account_table := rows @ [a]\<rparr>)))"

text \<open>
  \<^verbatim>\<open>Account.save\<close>: \<^verbatim>\<open>not self.pk\<close> holds for the key \<^verbatim>\<open>None\<close> and for the key 0.
  Reading \<^verbatim>\<open>self.bar\<close> fetches the row of the bar and raises \<^verbatim>\<open>DoesNotExist\<close> when
  there is none (the table of users, which \<^verbatim>\<open>self.owner\<close> reads, is not among the
  sources).
\<close>

definition Account_save ::
  "datetime \<Rightarrow> Account \<Rightarrow> 'r db \<Rightarrow> error + (Account \<times> 'r db)" where
  "Account_save now self d =
     (if pk self = None \<or> pk self = Some 0
      then (if \<not> list_ex (\<lambda>b. bar_id b = bar self) (bar_table d) then Inl DoesNotExist
            else (case Role_get_or_create ''customer'' (bar self) (owner self) d of
                    Inl e \<Rightarrow> Inl e
                  | Inr d' \<Rightarrow> Model_save_account now self d'))
      else Model_save_account now self d)"

text \<open>\<^verbatim>\<open>super(Bar, self).save()\<close>: update the row with this key, or insert it.\<close>

definition Model_save_bar :: "Bar \<Rightarrow> 'r db \<Rightarrow> 'r db" where
  "Model_save_bar self d =
     (if list_ex (\<lambda>b. bar_id b = bar_id self) (bar_table d)
      then d\<lparr>bar_table := map (\<lambda>b. if bar_id b = bar_id self then self else b) (bar_table d)\<rparr>
      else d\<lparr>bar_table := bar_table d @ [self]\<rparr>)"

text \<open>A new \<^verbatim>\<open>BarSettings\<close> row, every field at the default the model declares.\<close>

definition new_BarSettings :: "string \<Rightarrow> datetime \<Rightarrow> BarSettings" where
  "new_BarSettings b now =
     \<lparr>settings_bar = b, next_scheduled_appro = None, money_warning_threshold = Finite 15,
      transaction_cancel_threshold = Finite 48, default_tax = Finite 0.2, agios_enabled = True,
      agios_threshold = Finite 2, agios_factor = Finite 0.05, settings_last_modified = now\<rparr>"

text \<open>\<^verbatim>\<open>BarSettings.objects.get_or_create(bar=self)\<close>.\<close>

definition BarSettings_get_or_create :: "datetime \<Rightarrow> Bar \<Rightarrow> 'r db \<Rightarrow> error + 'r db" where
  "BarSettings_get_or_create now self d =
     (case filter (\<lambda>s. settings_bar s = bar_id self) (barsettings_table d) of
        [] \<Rightarrow> Inr (d\<lparr>barsettings_table := barsettings_table d @ [new_BarSettings (bar_id self) now]\<rparr>)
      | [s] \<Rightarrow> Inr d
      | _ \<Rightarrow> Inl MultipleObjectsReturned)"

text \<open>\<^verbatim>\<open>Bar.save\<close>.\<close>

definition Bar_save :: "datetime \<Rightarrow> Bar \<Rightarrow> 'r db \<Rightarrow> error + 'r db" where
  "Bar_save now self d = BarSettings_get_or_create now self (Model_save_bar self d)"

section \<open>Overdraft fees\<close>

text \<open>
  The data \<^verbatim>\<open>makeAgiosTransaction\<close> hands to the serializer:
  \<^verbatim>\<open>{'type': 'agios', 'account': account.id, 'amount': amount}\<close>.
\<close>

record agios_data =
  data_type :: string
  data_account :: "nat option"
  data_amount :: pyfloat

text \<open>
  \<^verbatim>\<open>makeAgiosTransaction\<close>. The serializer \<^verbatim>\<open>AgiosTransactionSerializer\<close> and
  \<^verbatim>\<open>get_default_user\<close> are not among the sources; the serializer is the parameter
  \<open>ser\<close>: given the data and the bar of the mocked request, it either raises
  (\<^verbatim>\<open>is_valid(raise_exception=True)\<close>) or saves, changing the store.
\<close>

definition makeAgiosTransaction ::
  "(agios_data \<Rightarrow> Bar \<Rightarrow> 'r db \<Rightarrow> error + 'r db) \<Rightarrow> Bar \<Rightarrow> Account \<Rightarrow> pyfloat \<Rightarrow> 'r db \<Rightarrow> error + 'r db" where
  "makeAgiosTransaction ser b account amount d =
     ser \<lparr>data_type = ''agios'', data_account = pk account, data_amount = amount\<rparr> b d"

text \<open>\<^verbatim>\<open>self.settings\<close>: the row of \<^verbatim>\<open>BarSettings\<close> whose key is the bar.\<close>

definition Bar_settings :: "Bar \<Rightarrow> 'r db \<Rightarrow> BarSettings option" where
  "Bar_settings self d = find (\<lambda>s. settings_bar s = bar_id self) (barsettings_table d)"

text \<open>
  \<^verbatim>\<open>Bar.apply_agios\<close>. \<open>today1\<close> is the date read when the overdraft date is set,
  \<open>today2\<close> the date read for the comparison with the threshold; the difference of two
  dates is a \<^verbatim>\<open>timedelta\<close> of whole days. The result is the returned number, the
  account object as the call leaves it, and the store; an exception is \<open>Inl\<close>.
\<close>

definition apply_agios ::
  "(agios_data \<Rightarrow> Bar \<Rightarrow> 'r db \<Rightarrow> error + 'r db) \<Rightarrow> date \<Rightarrow> date \<Rightarrow> datetime \<Rightarrow> Bar \<Rightarrow> Account
     \<Rightarrow> 'r db \<Rightarrow> error + (pyfloat \<times> Account \<times> 'r db)" where
  "apply_agios ser today1 today2 now self account d =
     (if float_nonneg (money account) \<and> overdrawn_since account \<noteq> None then
        (case Account_save now (account\<lparr>overdrawn_since := None\<rparr>) d of
           Inl e \<Rightarrow> Inl e
         | Inr (a, d') \<Rightarrow> Inr (Finite 0, a, d'))
      else if float_neg (money account) then
        (case (if overdrawn_since account = None
               then Account_save now (account\<lparr>overdrawn_since := Some today1\<rparr>) d
               else Inr (account, d)) of
           Inl e \<Rightarrow> Inl e
         | Inr (a, d') \<Rightarrow>
             (case Bar_settings self d' of
                None \<Rightarrow> Inl DoesNotExist
              | Some s \<Rightarrow>
                  if agios_enabled s then
                    (case overdrawn_since a of
                       None \<Rightarrow> Inl TypeError
                     | Some since \<Rightarrow>
                         (case timedelta (agios_threshold s) of
                            Inl e \<Rightarrow> Inl e
                          | Inr threshold \<Rightarrow>
                              if (today2 - since) * 86400000000 \<ge> threshold then
                                (let delta = float_mult (float_abs (money a)) (agios_factor s) in
                                 case makeAgiosTransaction ser self a delta d' of
                                   Inl e \<Rightarrow> Inl e
                                 | Inr d'' \<Rightarrow> Inr (delta, a, d''))
                              else Inr (Finite 0, a, d')))
                  else Inr (Finite 0, a, d')))
      else Inr (Finite 0, account, d))"

text \<open>\<^verbatim>\<open>self.account_set\<close> and \<^verbatim>\<open>Bar.count_accounts\<close>.\<close>

definition account_set :: "Bar \<Rightarrow> 'r db \<Rightarrow> Account list" where
  "account_set self d = filter (\<lambda>a. bar a = bar_id self) (account_table d)"

definition count_accounts :: "Bar \<Rightarrow> 'r db \<Rightarrow> nat" where
  "count_accounts self d = length (filter (\<lambda>a. deleted a = False) (account_set self d))"

section \<open>The ranking view\<close>

record request =
  request_bar :: "string option"

datatype 'a http_response =
    Response 'a nat
  | HttpResponseBadRequest string

text \<open>
  Modelled from the spec: \<^verbatim>\<open>bars_stats.utils.compute_account_ranking\<close> is not among the
  sources. A ranking query is scoped by the bar of the request; with no bar context there
  is no ranking (\<^verbatim>\<open>None\<close>), otherwise the ranking is the aggregate \<open>agg\<close> over the
  transaction log of that bar, a list of accounts with their summed deltas.
\<close>

definition compute_account_ranking ::
  "(string \<Rightarrow> (nat \<times> real) list) \<Rightarrow> request \<Rightarrow> (nat \<times> real) list option" where
  "compute_account_ranking agg req =
     (case request_bar req of None \<Rightarrow> None | Some b \<Rightarrow> Some (agg b))"

text \<open>\<^verbatim>\<open>AccountViewSet.ranking\<close>, over the function that computes the ranking.\<close>

definition ranking :: "(request \<Rightarrow> 'a option) \<Rightarrow> request \<Rightarrow> 'a http_response" where
  "ranking compute req =
     (case compute req of
        None \<Rightarrow> HttpResponseBadRequest ''I can only give a ranking within a bar''
      | Some r \<Rightarrow> Response r 200)"

section \<open>Properties of the store\<close>

text \<open>
  An account object is persisted in a store when it has a key other than 0, a row of the
  account table has this key, and no row with another key has its bar and owner (the
  \<^verbatim>\<open>unique_together\<close> constraint would reject saving it otherwise).
\<close>

definition persisted :: "'r db \<Rightarrow> Account \<Rightarrow> bool" where
  "persisted d a \<longleftrightarrow>
     pk a \<noteq> None \<and> pk a \<noteq> Some 0
     \<and> list_ex (\<lambda>r. pk r = pk a) (account_table d)
     \<and> list_all (\<lambda>r. pk r = pk a \<or> bar r \<noteq> bar a \<or> owner r \<noteq> owner a) (account_table d)"

text \<open>The store in which the rows with the key of \<open>a\<close> hold \<open>a\<close>.\<close>

definition store_account :: "Account \<Rightarrow> 'r db \<Rightarrow> 'r db" where
  "store_account a d =
     d\<lparr>account_table := map (\<lambda>r. if pk r = pk a then a else r) (account_table d)\<rparr>"

text \<open>The number of \<^verbatim>\<open>BarSettings\<close> rows whose key is the bar \<open>b\<close>.\<close>

definition settings_count :: "string \<Rightarrow> 'r db \<Rightarrow> nat" where
  "settings_count b d = length (filter (\<lambda>s. settings_bar s = b) (barsettings_table d))"

text \<open>The companion invariant: every row of \<^verbatim>\<open>Bar\<close> has exactly one \<^verbatim>\<open>BarSettings\<close>.\<close>

definition companion_inv :: "'r db \<Rightarrow> bool" where
  "companion_inv d \<longleftrightarrow> list_all (\<lambda>b. settings_count (bar_id b) d = 1) (bar_table d)"


section \<open>Example data\<close>

definition bar0 :: Bar where
  "bar0 = \<lparr>bar_id = ''avironjone'', bar_name = ''Aviron''\<rparr>"

definition settings0 :: BarSettings where
  "settings0 = new_BarSettings ''avironjone'' 0"

definition account0 :: Account where
  "account0 = \<lparr>pk = Some 1, bar = ''avironjone'', owner = 7, money = Finite (-10),
     overdrawn_since = None, deleted = False, last_modified = 0\<rparr>"

definition db0 :: "agios_data list db" where
  "db0 = \<lparr>bar_table = [bar0], barsettings_table = [settings0], account_table = [account0],
     role_table = [], rest = []\<rparr>"

text \<open>
  A serializer for the examples: it accepts a request whose amount is finite, appends
  the data to the transactions kept in \<open>rest\<close> and lowers the finite balance of the
  account's row by the amount.
\<close>

fun lower_money :: "pyfloat \<Rightarrow> Account \<Rightarrow> Account" where
  "lower_money (Finite x) r =
     (case money r of Finite m \<Rightarrow> r\<lparr>money := Finite (m - x)\<rparr> | _ \<Rightarrow> r)"
| "lower_money _ r = r"

definition ser0 :: "agios_data \<Rightarrow> Bar \<Rightarrow> agios_data list db \<Rightarrow> error + agios_data list db" where
  "ser0 dat b d =
     (case data_amount dat of
        Finite x \<Rightarrow>
          Inr (d\<lparr>account_table :=
                    map (\<lambda>r. if pk r = data_account dat then lower_money (Finite x) r else r)
                      (account_table d),
                  rest := rest d @ [dat]\<rparr>)
      | _ \<Rightarrow> Inl ValidationError)"

section \<open>Saving an account\<close>

lemma Model_save_account_persisted:
  assumes "persisted d a" "pk a' = pk a" "bar a' = bar a" "owner a' = owner a"
  shows "Model_save_account now a' d
           = Inr (a'\<lparr>last_modified := now\<rparr>, store_account (a'\<lparr>last_modified := now\<rparr>) d)"
proof -
  from assms obtain k where k: "pk a = Some k" by (auto simp: persisted_def)
  have nocoll: "\<not> list_ex (\<lambda>r. pk r \<noteq> pk a \<and> bar r = bar a \<and> owner r = owner a) (account_table d)"
    using assms(1) by (auto simp: persisted_def list_ex_iff list_all_iff)
  have ex: "list_ex (\<lambda>r. pk r = Some k) (account_table d)"
    using assms(1) k by (simp add: persisted_def)
  show ?thesis
    using nocoll ex k assms(2-4)
    by (simp add: Model_save_account_def store_account_def Let_def)
qed

lemma Account_save_persisted:
  assumes "persisted d a" "pk a' = pk a" "bar a' = bar a" "owner a' = owner a"
  shows "Account_save now a' d
           = Inr (a'\<lparr>last_modified := now\<rparr>, store_account (a'\<lparr>last_modified := now\<rparr>) d)"
proof -
  obtain k where "pk a' = Some k" "k \<noteq> 0"
    using assms(1,2) by (auto simp: persisted_def)
  then show ?thesis
    using Model_save_account_persisted [OF assms, of now] by (simp add: Account_save_def)
qed

lemma find_replaced_row:
  "list_ex (\<lambda>r. pk r = pk a) rows \<Longrightarrow>
     find (\<lambda>r. pk r = pk a) (map (\<lambda>r. if pk r = pk a then a else r) rows) = Some a"
  by (induction rows) auto

lemma find_store_account:
  "list_ex (\<lambda>r. pk r = pk a) (account_table d) \<Longrightarrow>
     find (\<lambda>r. pk r = pk a) (account_table (store_account a d)) = Some a"
  by (simp add: store_account_def find_replaced_row)

lemma persisted_find:
  "persisted d account \<Longrightarrow> pk a = pk account \<Longrightarrow>
     find (\<lambda>r. pk r = pk account) (account_table (store_account a d)) = Some a"
  using find_store_account [of a d] by (simp add: persisted_def)

lemma find_appended_row:
  "\<not> list_ex P rows \<Longrightarrow> P a \<Longrightarrow> find P (rows @ [a]) = Some a"
  by (induction rows) auto

lemma fold_max_ge: "(m::nat) \<le> fold max ks m"
proof (induction ks arbitrary: m)
  case Nil
  show ?case by simp
next
  case (Cons k ks)
  have "m \<le> max k m" by simp
  also have "\<dots> \<le> fold max ks (max k m)" by (rule Cons.IH)
  finally show ?case by simp
qed

lemma fold_max_member: "k \<in> set ks \<Longrightarrow> (k::nat) \<le> fold max ks m"
proof (induction ks arbitrary: m)
  case Nil
  then show ?case by simp
next
  case (Cons x ks)
  show ?case
  proof (cases "k = x")
    case True
    have "k \<le> max x m" using True by simp
    also have "\<dots> \<le> fold max ks (max x m)" by (rule fold_max_ge)
    finally show ?thesis by simp
  next
    case False
    with Cons.prems have "k \<in> set ks" by simp
    then show ?thesis using Cons.IH by simp
  qed
qed

lemma next_pk_fresh: "\<not> list_ex (\<lambda>r. pk r = Some (next_pk rows)) rows"
proof
  assume "list_ex (\<lambda>r. pk r = Some (next_pk rows)) rows"
  then obtain r where r: "r \<in> set rows" "pk r = Some (next_pk rows)"
    by (auto simp: list_ex_iff)
  then have "next_pk rows \<in> set (map (\<lambda>r. case pk r of None \<Rightarrow> 0 | Some k \<Rightarrow> k) rows)"
    by force
  then have "next_pk rows \<le> fold max (map (\<lambda>r. case pk r of None \<Rightarrow> 0 | Some k \<Rightarrow> k) rows) 0"
    by (rule fold_max_member)
  then show False by (simp add: next_pk_def)
qed

lemma Model_save_account_result:
  assumes "Model_save_account now x d = Inr (a, d')"
  shows "overdrawn_since a = overdrawn_since x \<and> money a = money x
         \<and> barsettings_table d' = barsettings_table d
         \<and> find (\<lambda>r. pk r = pk a) (account_table d') = Some a"
proof (cases "pk x")
  case None
  let ?a = "x\<lparr>last_modified := now, pk := Some (next_pk (account_table d))\<rparr>"
  from assms None have "a = ?a" "d' = d\<lparr>account_table := account_table d @ [?a]\<rparr>"
    by (auto simp: Model_save_account_def Let_def split: if_splits)
  moreover have "find (\<lambda>r. pk r = pk ?a) (account_table d @ [?a]) = Some ?a"
    using next_pk_fresh [of "account_table d"] by (intro find_appended_row) simp_all
  ultimately show ?thesis by simp
next
  case (Some k)
  let ?a = "x\<lparr>last_modified := now\<rparr>"
  show ?thesis
  proof (cases "list_ex (\<lambda>r. pk r = Some k) (account_table d)")
    case True
    with assms Some have "a = ?a"
      "d' = d\<lparr>account_table := map (\<lambda>r. if pk r = pk ?a then ?a else r) (account_table d)\<rparr>"
      by (auto simp: Model_save_account_def Let_def split: if_splits)
    moreover have "find (\<lambda>r. pk r = pk ?a)
        (map (\<lambda>r. if pk r = pk ?a then ?a else r) (account_table d)) = Some ?a"
      using True Some by (intro find_replaced_row) simp
    ultimately show ?thesis by simp
  next
    case False
    with assms Some have "a = ?a" "d' = d\<lparr>account_table := account_table d @ [?a]\<rparr>"
      by (auto simp: Model_save_account_def Let_def split: if_splits)
    moreover have "find (\<lambda>r. pk r = pk ?a) (account_table d @ [?a]) = Some ?a"
      using False Some by (intro find_appended_row) simp_all
    ultimately show ?thesis by simp
  qed
qed

lemma Account_save_result:
  assumes "Account_save now x d = Inr (a, d')"
  shows "overdrawn_since a = overdrawn_since x \<and> money a = money x
         \<and> barsettings_table d' = barsettings_table d
         \<and> find (\<lambda>r. pk r = pk a) (account_table d') = Some a"
proof (cases "pk x = None \<or> pk x = Some 0")
  case True
  with assms obtain d1 where d1: "Role_get_or_create ''customer'' (bar x) (owner x) d = Inr d1"
    "Model_save_account now x d1 = Inr (a, d')"
    by (auto simp: Account_save_def split: if_splits sum.splits)
  from d1(1) have "barsettings_table d1 = barsettings_table d"
    by (auto simp: Role_get_or_create_def split: list.splits)
  then show ?thesis
    using Model_save_account_result [OF d1(2)] by simp
next
  case False
  with assms have "Model_save_account now x d = Inr (a, d')"
    by (simp add: Account_save_def)
  then show ?thesis by (rule Model_save_account_result)
qed

section \<open>Thresholds\<close>

lemma round_half_even_of_int: "round_half_even (of_int n) = n"
  by (simp add: round_half_even_def)

lemma timedelta_two: "timedelta (Finite 2) = Inr 172800000000"
  using round_half_even_of_int [of 172800000000]
  by (simp add: timedelta_def)

section \<open>The branches of the accrual\<close>

lemma apply_agios_overdrawn:
  assumes "float_neg (money account)" and "overdrawn_since account = Some since"
    and "Bar_settings self d = Some s"
  shows "apply_agios ser today1 today2 now self account d =
           (if agios_enabled s
            then (case timedelta (agios_threshold s) of
                    Inl e \<Rightarrow> Inl e
                  | Inr threshold \<Rightarrow>
                      if (today2 - since) * 86400000000 \<ge> threshold
                      then (case ser \<lparr>data_type = ''agios'', data_account = pk account,
                                       data_amount = float_mult (float_abs (money account)) (agios_factor s)\<rparr>
                                  self d of
                              Inl e \<Rightarrow> Inl e
                            | Inr d' \<Rightarrow> Inr (float_mult (float_abs (money account)) (agios_factor s),
                                              account, d'))
                      else Inr (Finite 0, account, d))
            else Inr (Finite 0, account, d))"
proof -
  have "\<not> float_nonneg (money account)"
    using assms(1) by (cases "money account") simp_all
  then show ?thesis
    using assms
    by (simp add: apply_agios_def makeAgiosTransaction_def Let_def split: sum.split)
qed

lemma apply_agios_first_overdraft:
  assumes "float_neg (money account)" and "overdrawn_since account = None"
    and "Bar_settings self d = Some s"
    and "Account_save now (account\<lparr>overdrawn_since := Some today1\<rparr>) d = Inr (a, d1)"
  shows "apply_agios ser today1 today2 now self account d =
           (if agios_enabled s
            then (case timedelta (agios_threshold s) of
                    Inl e \<Rightarrow> Inl e
                  | Inr threshold \<Rightarrow>
                      if (today2 - today1) * 86400000000 \<ge> threshold
                      then (case ser \<lparr>data_type = ''agios'', data_account = pk a,
                                       data_amount = float_mult (float_abs (money account)) (agios_factor s)\<rparr>
                                  self d1 of
                              Inl e \<Rightarrow> Inl e
                            | Inr d' \<Rightarrow> Inr (float_mult (float_abs (money account)) (agios_factor s),
                                              a, d'))
                      else Inr (Finite 0, a, d1))
            else Inr (Finite 0, a, d1))"
proof -
  have nn: "\<not> float_nonneg (money account)"
    using assms(1) by (cases "money account") simp_all
  from Account_save_result [OF assms(4)]
  have a: "overdrawn_since a = Some today1" "money a = money account"
    "barsettings_table d1 = barsettings_table d" by simp_all
  have "Bar_settings self d1 = Some s"
    using a(3) assms(3) by (simp add: Bar_settings_def)
  then show ?thesis
    using nn assms(1,2,4) a(1,2)
    by (simp add: apply_agios_def makeAgiosTransaction_def Let_def split: sum.split)
qed

lemma apply_agios_recovered:
  assumes "persisted d account" and "float_nonneg (money account)"
    and "overdrawn_since account \<noteq> None"
  shows "apply_agios ser today1 today2 now self account d =
           Inr (Finite 0, account\<lparr>overdrawn_since := None, last_modified := now\<rparr>,
                store_account (account\<lparr>overdrawn_since := None, last_modified := now\<rparr>) d)"
proof -
  let ?a = "account\<lparr>overdrawn_since := None, last_modified := now\<rparr>"
  have "Account_save now (account\<lparr>overdrawn_since := None\<rparr>) d = Inr (?a, store_account ?a d)"
    using Account_save_persisted [OF assms(1), of "account\<lparr>overdrawn_since := None\<rparr>" now]
    by simp
  then show ?thesis
    using assms(2,3) by (simp add: apply_agios_def)
qed

lemma float_nonneg_not_neg: "float_nonneg m \<Longrightarrow> \<not> float_neg m"
  by (cases m) simp_all



section \<open>Accounts in credit\<close>

text \<open>
  C4. An account whose balance is not negative and whose overdraft date is already
  null: \<open>apply_agios\<close> returns 0, leaves the account object and the store as they were
  (so the overdraft date stays null and nothing is saved), and hands nothing to the
  serializer, whatever the serializer is.
\<close>

theorem apply_agios_credit_noop:
  "float_nonneg (money account) \<Longrightarrow> overdrawn_since account = None \<Longrightarrow>
     apply_agios ser today1 today2 now self account d = Inr (Finite 0, account, d)"
  by (simp add: apply_agios_def float_nonneg_not_neg)

theorem apply_agios_credit_noop_witness:
  "float_nonneg (money (account0\<lparr>money := Finite 3\<rparr>))
   \<and> overdrawn_since (account0\<lparr>money := Finite 3\<rparr>) = None
   \<and> apply_agios (\<lambda>dat b d. Inl ValidationError) 100 100 5 bar0 (account0\<lparr>money := Finite 3\<rparr>) db0
       = Inr (Finite 0, account0\<lparr>money := Finite 3\<rparr>, db0)"
  using apply_agios_credit_noop
    [of "account0\<lparr>money := Finite 3\<rparr>" "\<lambda>dat b d. Inl ValidationError" 100 100 5 bar0 db0]
  by (simp add: account0_def)

text \<open>
  C3. An account whose overdraft date is set and whose balance is back at 0 or above,
  persisted in the store: \<open>apply_agios\<close> returns 0, the overdraft date of the account is
  null, the row of the account in the store is the cleared account, and the store is
  otherwise as before; the result does not depend on the serializer, so no fee
  transaction is made.
\<close>

theorem apply_agios_clears_overdraft:
  assumes "persisted d account" and "float_nonneg (money account)"
    and "overdrawn_since account \<noteq> None"
  shows "apply_agios ser today1 today2 now self account d =
           Inr (Finite 0, account\<lparr>overdrawn_since := None, last_modified := now\<rparr>,
                store_account (account\<lparr>overdrawn_since := None, last_modified := now\<rparr>) d)
         \<and> find (\<lambda>r. pk r = pk account)
               (account_table (store_account (account\<lparr>overdrawn_since := None, last_modified := now\<rparr>) d))
             = Some (account\<lparr>overdrawn_since := None, last_modified := now\<rparr>)
         \<and> rest (store_account (account\<lparr>overdrawn_since := None, last_modified := now\<rparr>) d) = rest d
         \<and> barsettings_table (store_account (account\<lparr>overdrawn_since := None, last_modified := now\<rparr>) d)
             = barsettings_table d"
  using apply_agios_recovered [OF assms] persisted_find [OF assms(1)]
  by (simp add: store_account_def)

theorem apply_agios_clears_overdraft_witness:
  "persisted (db0\<lparr>account_table := [account0\<lparr>money := Finite 3, overdrawn_since := Some 98\<rparr>]\<rparr>)
     (account0\<lparr>money := Finite 3, overdrawn_since := Some 98\<rparr>)
   \<and> apply_agios (\<lambda>dat b d. Inl ValidationError) 100 100 5 bar0
        (account0\<lparr>money := Finite 3, overdrawn_since := Some 98\<rparr>)
        (db0\<lparr>account_table := [account0\<lparr>money := Finite 3, overdrawn_since := Some 98\<rparr>]\<rparr>)
       = Inr (Finite 0, account0\<lparr>money := Finite 3, last_modified := 5\<rparr>,
              db0\<lparr>account_table := [account0\<lparr>money := Finite 3, last_modified := 5\<rparr>]\<rparr>)"
  using apply_agios_clears_overdraft
    [of "db0\<lparr>account_table := [account0\<lparr>money := Finite 3, overdrawn_since := Some 98\<rparr>]\<rparr>"
        "account0\<lparr>money := Finite 3, overdrawn_since := Some 98\<rparr>"
        "\<lambda>dat b d. Inl ValidationError" 100 100 5 bar0]
  by (simp add: persisted_def store_account_def account0_def db0_def)

section \<open>Overdrawn accounts\<close>




text \<open>
  C5. An account with a negative balance whose overdraft date is day \<open>day0\<close>, accrual
  enabled, \<open>agios_threshold = 2\<close>: on day \<open>day0 + 1\<close> \<open>apply_agios\<close> returns 0 and
  leaves the account and the store as they are, whatever the serializer is; on day
  \<open>day0 + 2\<close> it hands the fee request to the serializer and returns the fee.
\<close>

theorem apply_agios_threshold_boundary:
  assumes "float_neg (money account)" and "overdrawn_since account = Some day0"
    and "Bar_settings self d = Some s" and "agios_enabled s" and "agios_threshold s = Finite 2"
  shows "apply_agios ser today1 (day0 + 1) now self account d = Inr (Finite 0, account, d)
         \<and> apply_agios ser today1 (day0 + 2) now self account d =
             (case ser \<lparr>data_type = ''agios'', data_account = pk account,
                         data_amount = float_mult (float_abs (money account)) (agios_factor s)\<rparr>
                    self d of
                Inl e \<Rightarrow> Inl e
              | Inr d' \<Rightarrow> Inr (float_mult (float_abs (money account)) (agios_factor s), account, d'))"
  using apply_agios_overdrawn [OF assms(1-3), of ser today1 "day0 + 1" now]
    apply_agios_overdrawn [OF assms(1-3), of ser today1 "day0 + 2" now] assms(4,5) timedelta_two
  by simp

theorem apply_agios_threshold_boundary_witness:
  "float_neg (money (account0\<lparr>overdrawn_since := Some 0\<rparr>))
   \<and> Bar_settings bar0 (db0\<lparr>account_table := [account0\<lparr>overdrawn_since := Some 0\<rparr>]\<rparr>) = Some settings0
   \<and> agios_enabled settings0 \<and> agios_threshold settings0 = Finite 2
   \<and> apply_agios ser0 1 1 5 bar0 (account0\<lparr>overdrawn_since := Some 0\<rparr>)
        (db0\<lparr>account_table := [account0\<lparr>overdrawn_since := Some 0\<rparr>]\<rparr>)
       = Inr (Finite 0, account0\<lparr>overdrawn_since := Some 0\<rparr>,
              db0\<lparr>account_table := [account0\<lparr>overdrawn_since := Some 0\<rparr>]\<rparr>)
   \<and> apply_agios ser0 2 2 5 bar0 (account0\<lparr>overdrawn_since := Some 0\<rparr>)
        (db0\<lparr>account_table := [account0\<lparr>overdrawn_since := Some 0\<rparr>]\<rparr>)
       = Inr (Finite 0.5, account0\<lparr>overdrawn_since := Some 0\<rparr>,
              db0\<lparr>account_table := [account0\<lparr>overdrawn_since := Some 0, money := Finite (-10.5)\<rparr>],
                  rest := [\<lparr>data_type = ''agios'', data_account = Some 1, data_amount = Finite 0.5\<rparr>]\<rparr>)"
  using apply_agios_threshold_boundary
    [of "account0\<lparr>overdrawn_since := Some 0\<rparr>" 0 bar0
        "db0\<lparr>account_table := [account0\<lparr>overdrawn_since := Some 0\<rparr>]\<rparr>" settings0 ser0 1 5]
    apply_agios_threshold_boundary
    [of "account0\<lparr>overdrawn_since := Some 0\<rparr>" 0 bar0
        "db0\<lparr>account_table := [account0\<lparr>overdrawn_since := Some 0\<rparr>]\<rparr>" settings0 ser0 2 5]
  by (simp add: Bar_settings_def account0_def db0_def settings0_def new_BarSettings_def
        bar0_def ser0_def)

section \<open>The first run on an overdrawn account\<close>




section \<open>The overdraft date across a charge\<close>






section \<open>The overdraft date after a call\<close>

lemma apply_agios_returns_date:
  assumes "apply_agios ser today1 today2 now self account d = Inr (fee, a', d')"
    and "money account \<noteq> NaN"
  shows "(overdrawn_since a' = None) = float_nonneg (money account)"
proof (cases "float_nonneg (money account)")
  case True
  then have "\<not> float_neg (money account)" by (rule float_nonneg_not_neg)
  with True assms(1) show ?thesis
    by (auto simp: apply_agios_def split: if_splits sum.splits dest!: Account_save_result)
next
  case False
  with assms(2) have neg: "float_neg (money account)"
    by (cases "money account") simp_all
  from False neg assms(1) have "overdrawn_since a' \<noteq> None"
    by (auto simp: apply_agios_def Let_def
          split: if_splits sum.splits option.splits dest!: Account_save_result)
  with False show ?thesis by simp
qed

text \<open>
  C9, as the code has it. For an account whose balance is not NaN: whenever
  \<open>apply_agios\<close> returns, the overdraft date of the account object is null exactly when
  the balance at entry was 0 or above, for every store, settings and serializer. For a
  balance that is NaN, neither test of the balance holds: the call returns 0 and leaves
  the account, with its overdraft date, and the store as they were. And the call does
  return for an account persisted in the store of a bar that has its settings, when
  \<^verbatim>\<open>timedelta(agios_threshold)\<close> can be built or accrual is disabled, and the serializer
  accepts what it is handed.
\<close>

theorem apply_agios_overdraft_date_iff:
  "(apply_agios ser today1 today2 now self account d = Inr (fee, a', d') \<and> money account \<noteq> NaN
      \<longrightarrow> ((overdrawn_since a' = None) = float_nonneg (money account)))
   \<and> (money account = NaN
      \<longrightarrow> apply_agios ser today1 today2 now self account d = Inr (Finite 0, account, d))
   \<and> (persisted d account
       \<and> (\<exists>s. Bar_settings self d = Some s
               \<and> (agios_enabled s \<longrightarrow> (\<exists>threshold. timedelta (agios_threshold s) = Inr threshold)))
       \<and> (\<forall>dat d1. \<exists>d2. ser dat self d1 = Inr d2)
      \<longrightarrow> (\<exists>fee1 a1 d1. apply_agios ser today1 today2 now self account d = Inr (fee1, a1, d1)))"
proof (intro conjI impI)
  assume "apply_agios ser today1 today2 now self account d = Inr (fee, a', d') \<and> money account \<noteq> NaN"
  then show "(overdrawn_since a' = None) = float_nonneg (money account)"
    using apply_agios_returns_date by blast
next
  assume "money account = NaN"
  then show "apply_agios ser today1 today2 now self account d = Inr (Finite 0, account, d)"
    by (simp add: apply_agios_def)
next
  assume pre: "persisted d account
       \<and> (\<exists>s. Bar_settings self d = Some s
               \<and> (agios_enabled s \<longrightarrow> (\<exists>threshold. timedelta (agios_threshold s) = Inr threshold)))
       \<and> (\<forall>dat d1. \<exists>d2. ser dat self d1 = Inr d2)"
  then obtain s where s: "Bar_settings self d = Some s"
    and td: "agios_enabled s \<Longrightarrow> \<exists>threshold. timedelta (agios_threshold s) = Inr threshold"
    by blast
  from pre have accepts: "\<exists>d2. ser dat self d1 = Inr d2" for dat d1 by blast
  from pre have stored: "persisted d account" by simp
  show "\<exists>fee1 a1 d1. apply_agios ser today1 today2 now self account d = Inr (fee1, a1, d1)"
  proof (cases "float_neg (money account)")
    case False
    show ?thesis
    proof (cases "float_nonneg (money account) \<and> overdrawn_since account \<noteq> None")
      case True
      then show ?thesis
        using apply_agios_recovered [OF stored, of ser today1 today2 now self] by simp
    next
      case no: False
      with False show ?thesis by (auto simp: apply_agios_def)
    qed
  next
    case neg: True
    show ?thesis
    proof (cases "agios_enabled s")
      case off: False
      show ?thesis
      proof (cases "overdrawn_since account")
        case None
        let ?a = "account\<lparr>overdrawn_since := Some today1, last_modified := now\<rparr>"
        have "Account_save now (account\<lparr>overdrawn_since := Some today1\<rparr>) d
                = Inr (?a, store_account ?a d)"
          using Account_save_persisted [OF stored, of "account\<lparr>overdrawn_since := Some today1\<rparr>" now]
          by simp
        from apply_agios_first_overdraft [OF neg None s this, of ser today2] off
        show ?thesis by simp
      next
        case (Some since)
        from apply_agios_overdrawn [OF neg Some s, of ser today1 today2 now] off
        show ?thesis by simp
      qed
    next
      case on: True
      then obtain threshold where th: "timedelta (agios_threshold s) = Inr threshold"
        using td by blast
      show ?thesis
      proof (cases "overdrawn_since account")
        case None
        let ?a = "account\<lparr>overdrawn_since := Some today1, last_modified := now\<rparr>"
        have save: "Account_save now (account\<lparr>overdrawn_since := Some today1\<rparr>) d
                = Inr (?a, store_account ?a d)"
          using Account_save_persisted [OF stored, of "account\<lparr>overdrawn_since := Some today1\<rparr>" now]
          by simp
        obtain d2 where "ser \<lparr>data_type = ''agios'', data_account = pk ?a,
                               data_amount = float_mult (float_abs (money account)) (agios_factor s)\<rparr>
                           self (store_account ?a d) = Inr d2"
          using accepts by blast
        with apply_agios_first_overdraft [OF neg None s save, of ser today2] on th
        show ?thesis by simp
      next
        case (Some since)
        obtain d2 where "ser \<lparr>data_type = ''agios'', data_account = pk account,
                               data_amount = float_mult (float_abs (money account)) (agios_factor s)\<rparr>
                           self d = Inr d2"
          using accepts by blast
        with apply_agios_overdrawn [OF neg Some s, of ser today1 today2 now] on th
        show ?thesis by simp
      qed
    qed
  qed
qed

theorem apply_agios_overdraft_date_iff_witness:
  "apply_agios ser0 100 100 5 bar0 account0 db0
     = Inr (Finite 0, account0\<lparr>overdrawn_since := Some 100, last_modified := 5\<rparr>,
            db0\<lparr>account_table := [account0\<lparr>overdrawn_since := Some 100, last_modified := 5\<rparr>]\<rparr>)
   \<and> money account0 \<noteq> NaN
   \<and> ((overdrawn_since (account0\<lparr>overdrawn_since := Some 100, last_modified := 5\<rparr>) = None)
        = float_nonneg (money account0))
   \<and> float_neg (money account0)"
proof -
  have run: "apply_agios ser0 100 100 5 bar0 account0 db0
     = Inr (Finite 0, account0\<lparr>overdrawn_since := Some 100, last_modified := 5\<rparr>,
            db0\<lparr>account_table := [account0\<lparr>overdrawn_since := Some 100, last_modified := 5\<rparr>]\<rparr>)"
    by (simp add: apply_agios_def Account_save_def Model_save_account_def Bar_settings_def
          timedelta_def round_half_even_def
          account0_def db0_def settings0_def new_BarSettings_def bar0_def Let_def)
  have num: "money account0 \<noteq> NaN" by (simp add: account0_def)
  have "(overdrawn_since (account0\<lparr>overdrawn_since := Some 100, last_modified := 5\<rparr>) = None)
        = float_nonneg (money account0)"
    using apply_agios_overdraft_date_iff
      [of ser0 100 100 5 bar0 account0 db0 "Finite 0"
          "account0\<lparr>overdrawn_since := Some 100, last_modified := 5\<rparr>"
          "db0\<lparr>account_table := [account0\<lparr>overdrawn_since := Some 100, last_modified := 5\<rparr>]\<rparr>"]
      run num
    by blast
  moreover have "float_neg (money account0)" by (simp add: account0_def)
  ultimately show ?thesis using run num by simp
qed

text \<open>
  The claim C9 as written fails for a balance that is NaN: the account below has no
  overdraft date and a NaN balance, which is not 0 or above; the call returns 0 and the
  overdraft date is still null.
\<close>

theorem apply_agios_overdraft_date_iff_counterexample:
  "apply_agios ser0 100 100 5 bar0 (account0\<lparr>money := NaN\<rparr>)
       (db0\<lparr>account_table := [account0\<lparr>money := NaN\<rparr>]\<rparr>)
     = Inr (Finite 0, account0\<lparr>money := NaN\<rparr>, db0\<lparr>account_table := [account0\<lparr>money := NaN\<rparr>]\<rparr>)
   \<and> overdrawn_since (account0\<lparr>money := NaN\<rparr>) = None
   \<and> \<not> float_nonneg (money (account0\<lparr>money := NaN\<rparr>))"
  by (simp add: apply_agios_def account0_def)

section \<open>Bars and their settings\<close>

lemma filter_key_distinct:
  "distinct (map key rows) \<Longrightarrow> length (filter (\<lambda>s. key s = b) rows) \<le> 1"
proof (induction rows)
  case Nil
  then show ?case by simp
next
  case (Cons r rows)
  show ?case
  proof (cases "key r = b")
    case True
    then have "b \<notin> key ` set rows" using Cons.prems by auto
    then have "filter (\<lambda>s. key s = b) rows = []"
      by (auto simp: filter_empty_conv)
    with True show ?thesis by simp
  next
    case False
    with Cons show ?thesis by simp
  qed
qed

lemma Model_save_bar_settings [simp]:
  "barsettings_table (Model_save_bar self d) = barsettings_table d"
  by (simp add: Model_save_bar_def)

lemma Model_save_bar_rows:
  "b \<in> set (bar_table (Model_save_bar self d)) \<Longrightarrow> b = self \<or> (b \<in> set (bar_table d) \<and> bar_id b \<noteq> bar_id self)"
  by (auto simp: Model_save_bar_def list_ex_iff split: if_splits)

lemma Model_save_bar_self: "self \<in> set (bar_table (Model_save_bar self d))"
  by (auto simp: Model_save_bar_def list_ex_iff)

lemma Bar_settings_None_iff:
  "Bar_settings self d = None \<longleftrightarrow> filter (\<lambda>s. settings_bar s = bar_id self) (barsettings_table d) = []"
  by (auto simp: Bar_settings_def find_None_iff filter_empty_conv)

text \<open>
  C8. In a store whose \<^verbatim>\<open>BarSettings\<close> table has no two rows with the same key (the key
  is the primary key of the table), \<open>Bar.save\<close> succeeds; afterwards the bar is a row of
  the bar table and exactly one \<^verbatim>\<open>BarSettings\<close> row has its key, the keys are still
  distinct, and if every bar had exactly one settings row before, every bar has exactly
  one after. The settings table is unchanged when the bar already had its settings row,
  and has one more row, with the defaults, when it had none.
\<close>

theorem Bar_save_companion:
  assumes "distinct (map settings_bar (barsettings_table d))"
  shows "\<exists>d'. Bar_save now self d = Inr d'
           \<and> self \<in> set (bar_table d')
           \<and> settings_count (bar_id self) d' = 1
           \<and> distinct (map settings_bar (barsettings_table d'))
           \<and> (companion_inv d \<longrightarrow> companion_inv d')
           \<and> barsettings_table d' =
               (if Bar_settings self d = None
                then barsettings_table d @ [new_BarSettings (bar_id self) now]
                else barsettings_table d)"
proof (cases "filter (\<lambda>s. settings_bar s = bar_id self) (barsettings_table d)")
  case Nil
  let ?d1 = "Model_save_bar self d"
  let ?d' = "?d1\<lparr>barsettings_table := barsettings_table d @ [new_BarSettings (bar_id self) now]\<rparr>"
  have res: "Bar_save now self d = Inr ?d'"
    using Nil by (simp add: Bar_save_def BarSettings_get_or_create_def)
  have notin: "bar_id self \<notin> settings_bar ` set (barsettings_table d)"
    using Nil by (auto simp: filter_empty_conv)
  have cnt: "settings_count (bar_id self) ?d' = 1"
    using Nil by (simp add: settings_count_def new_BarSettings_def)
  have dist: "distinct (map settings_bar (barsettings_table ?d'))"
    using assms notin by (simp add: new_BarSettings_def)
  have other: "settings_count b ?d' = settings_count b d" if "b \<noteq> bar_id self" for b
    using that by (simp add: settings_count_def new_BarSettings_def)
  have inv: "companion_inv ?d'" if "companion_inv d"
    unfolding companion_inv_def list_all_iff
  proof
    fix b assume "b \<in> set (bar_table ?d')"
    then have "b \<in> set (bar_table ?d1)" by simp
    then consider "b = self" | "b \<in> set (bar_table d)" "bar_id b \<noteq> bar_id self"
      using Model_save_bar_rows by blast
    then show "settings_count (bar_id b) ?d' = 1"
    proof cases
      case 1
      then show ?thesis using cnt by simp
    next
      case 2
      then show ?thesis
        using that other [of "bar_id b"] by (simp add: companion_inv_def list_all_iff)
    qed
  qed
  have "Bar_settings self d = None"
    using Nil by (simp add: Bar_settings_None_iff)
  then show ?thesis
    using res cnt dist inv Model_save_bar_self [of self d] by simp
next
  case (Cons s rest')
  let ?d1 = "Model_save_bar self d"
  have "length (filter (\<lambda>s. settings_bar s = bar_id self) (barsettings_table d)) \<le> 1"
    using assms by (rule filter_key_distinct)
  with Cons have one: "filter (\<lambda>s. settings_bar s = bar_id self) (barsettings_table d) = [s]"
    by simp
  have res: "Bar_save now self d = Inr ?d1"
    using one by (simp add: Bar_save_def BarSettings_get_or_create_def)
  have cnt: "settings_count (bar_id self) ?d1 = 1"
    using one by (simp add: settings_count_def)
  have same: "settings_count b ?d1 = settings_count b d" for b
    by (simp add: settings_count_def)
  have inv: "companion_inv ?d1" if "companion_inv d"
    unfolding companion_inv_def list_all_iff
  proof
    fix b assume "b \<in> set (bar_table ?d1)"
    then consider "b = self" | "b \<in> set (bar_table d)" "bar_id b \<noteq> bar_id self"
      using Model_save_bar_rows by blast
    then show "settings_count (bar_id b) ?d1 = 1"
    proof cases
      case 1
      then show ?thesis using cnt by simp
    next
      case 2
      then show ?thesis
        using that same [of "bar_id b"] by (simp add: companion_inv_def list_all_iff)
    qed
  qed
  have "Bar_settings self d \<noteq> None"
    using one by (simp add: Bar_settings_None_iff)
  then show ?thesis
    using res cnt assms inv Model_save_bar_self [of self d] by simp
qed

theorem Bar_save_companion_witness:
  "distinct (map settings_bar (barsettings_table db0))
   \<and> Bar_save 5 \<lparr>bar_id = ''bob'', bar_name = ''Bob''\<rparr> db0
       = Inr (db0\<lparr>bar_table := [bar0, \<lparr>bar_id = ''bob'', bar_name = ''Bob''\<rparr>],
                  barsettings_table := [settings0, new_BarSettings ''bob'' 5]\<rparr>)
   \<and> settings_count ''bob''
        (db0\<lparr>bar_table := [bar0, \<lparr>bar_id = ''bob'', bar_name = ''Bob''\<rparr>],
            barsettings_table := [settings0, new_BarSettings ''bob'' 5]\<rparr>) = 1
   \<and> Bar_save 6 \<lparr>bar_id = ''bob'', bar_name = ''Bob''\<rparr>
        (db0\<lparr>bar_table := [bar0, \<lparr>bar_id = ''bob'', bar_name = ''Bob''\<rparr>],
            barsettings_table := [settings0, new_BarSettings ''bob'' 5]\<rparr>)
       = Inr (db0\<lparr>bar_table := [bar0, \<lparr>bar_id = ''bob'', bar_name = ''Bob''\<rparr>],
                  barsettings_table := [settings0, new_BarSettings ''bob'' 5]\<rparr>)"
proof -
  let ?bob = "\<lparr>bar_id = ''bob'', bar_name = ''Bob''\<rparr>"
  let ?d = "db0\<lparr>bar_table := [bar0, ?bob],
               barsettings_table := [settings0, new_BarSettings ''bob'' 5]\<rparr>"
  have keys: "distinct (map settings_bar (barsettings_table db0))"
    by (simp add: db0_def)
  have run: "Bar_save 5 ?bob db0 = Inr ?d"
    by (simp add: Bar_save_def BarSettings_get_or_create_def Model_save_bar_def db0_def bar0_def
          settings0_def new_BarSettings_def)
  have again: "Bar_save 6 ?bob ?d = Inr ?d"
    by (simp add: Bar_save_def BarSettings_get_or_create_def Model_save_bar_def db0_def bar0_def
          settings0_def new_BarSettings_def)
  from Bar_save_companion [OF keys, of 5 ?bob] run
  have "settings_count (bar_id ?bob) ?d = 1" by auto
  then have "settings_count ''bob'' ?d = 1" by simp
  with keys run again show ?thesis by simp
qed

section \<open>Counting the accounts of a bar\<close>

text \<open>
  C10. \<open>count_accounts\<close> is the number of rows of the account table that belong to the
  bar and whose \<open>deleted\<close> flag is false; a new row adds one to the count when it is a
  row of this bar that is not deleted, and leaves the count as it is otherwise.
\<close>

theorem count_accounts_active:
  "count_accounts self d =
     card {i. i < length (account_table d) \<and> bar (account_table d ! i) = bar_id self
              \<and> deleted (account_table d ! i) = False}
   \<and> count_accounts self (d\<lparr>account_table := account_table d @ [a]\<rparr>) =
       (if bar a = bar_id self \<and> deleted a = False
        then Suc (count_accounts self d) else count_accounts self d)"
proof -
  have "count_accounts self d =
          length (filter (\<lambda>a. bar a = bar_id self \<and> deleted a = False) (account_table d))"
    by (simp add: count_accounts_def account_set_def conj_commute)
  then have "count_accounts self d =
     card {i. i < length (account_table d) \<and> bar (account_table d ! i) = bar_id self
              \<and> deleted (account_table d ! i) = False}"
    by (simp only: length_filter_conv_card)
  moreover have "count_accounts self (d\<lparr>account_table := account_table d @ [a]\<rparr>) =
       (if bar a = bar_id self \<and> deleted a = False
        then Suc (count_accounts self d) else count_accounts self d)"
    by (simp add: count_accounts_def account_set_def)
  ultimately show ?thesis by (rule conjI)
qed

theorem count_accounts_active_witness:
  "count_accounts bar0
     (db0\<lparr>account_table := [account0, account0\<lparr>pk := Some 3, owner := 9, bar := ''bob''\<rparr>]
                              @ [account0\<lparr>pk := Some 2, owner := 8, deleted := True\<rparr>]\<rparr>) = 1"
  using count_accounts_active
    [of bar0 "db0\<lparr>account_table := [account0, account0\<lparr>pk := Some 3, owner := 9, bar := ''bob''\<rparr>]\<rparr>"
        "account0\<lparr>pk := Some 2, owner := 8, deleted := True\<rparr>"]
  by (simp add: count_accounts_def account_set_def db0_def account0_def bar0_def)

section \<open>Ranking without a bar\<close>

text \<open>
  C7. For a request without a bar, the ranking view answers with the bad-request response
  "I can only give a ranking within a bar", never with a ranking (not with an empty one
  either). In the view itself, for any function that computes the ranking, the
  bad-request response is given exactly when that function returns \<^verbatim>\<open>None\<close>.
\<close>

theorem ranking_no_bar:
  "(request_bar req = None \<longrightarrow>
      ranking (compute_account_ranking agg) req
        = HttpResponseBadRequest ''I can only give a ranking within a bar''
      \<and> (\<forall>r status. ranking (compute_account_ranking agg) req \<noteq> Response r status))
   \<and> (\<forall>compute :: request \<Rightarrow> (nat \<times> real) list option.
         (ranking compute req = HttpResponseBadRequest ''I can only give a ranking within a bar'')
           = (compute req = None))"
  by (simp add: ranking_def compute_account_ranking_def split: option.split)

theorem ranking_no_bar_witness:
  "request_bar \<lparr>request_bar = None\<rparr> = None
   \<and> ranking (compute_account_ranking (\<lambda>b. [])) \<lparr>request_bar = None\<rparr>
       = HttpResponseBadRequest ''I can only give a ranking within a bar''
   \<and> ranking (compute_account_ranking (\<lambda>b. [])) \<lparr>request_bar = Some ''avironjone''\<rparr>
       = Response [] 200"
  using ranking_no_bar [of "\<lparr>request_bar = None\<rparr>" "\<lambda>b. []"]
  by (simp add: ranking_def compute_account_ranking_def)

end
